theory Spec2Isabelle
  imports Main "HOL-Library.Word"
begin

section \<open>The typed settings registry of src/core/abstractsettings.cpp\<close>

subsection \<open>Strings\<close>

text \<open>
  A \<open>QString\<close> is either null (what \<open>QString()\<close> and a freshly constructed struct
  member are) or holds characters, possibly none. \<open>isNull\<close> tells the two apart;
  \<open>isEmpty\<close>, \<open>==\<close> and \<open>!=\<close> read the characters only, so that a null string compares
  equal to an empty one.
\<close>

datatype QString = QNull | QStr string

fun chars :: "QString \<Rightarrow> string" where
  "chars QNull = []"
| "chars (QStr cs) = cs"

fun isNull :: "QString \<Rightarrow> bool" where
  "isNull QNull = True"
| "isNull (QStr cs) = False"

definition isEmpty :: "QString \<Rightarrow> bool" where
  "isEmpty q = (chars q = [])"

text \<open>\<open>operator==\<close> and \<open>operator!=\<close> of \<open>QString\<close>.\<close>

definition qeq :: "QString \<Rightarrow> QString \<Rightarrow> bool" where
  "qeq a b = (chars a = chars b)"

definition qne :: "QString \<Rightarrow> QString \<Rightarrow> bool" where
  "qne a b = (chars a \<noteq> chars b)"

definition UNDEFINED :: string where
  "UNDEFINED = ''<UNDEFINED>''"

definition VALUE_TRUE :: string where
  "VALUE_TRUE = ''<TRUE>''"

definition VALUE_FALSE :: string where
  "VALUE_FALSE = ''<FALSE>''"

definition boolToString :: "bool \<Rightarrow> QString" where
  "boolToString b = QStr (if b then VALUE_TRUE else VALUE_FALSE)"

definition stringToBool :: "QString \<Rightarrow> bool" where
  "stringToBool str = (chars str = VALUE_TRUE)"

text \<open>
  \<open>QString::number(int)\<close>: the decimal digits of a 32-bit signed integer, with a minus
  sign in front of a negative one.
\<close>

definition digit :: "nat \<Rightarrow> char" where
  "digit d = char_of (48 + d)"

function decimal :: "nat \<Rightarrow> string" where
  "decimal n = (if n < 10 then [digit n] else decimal (n div 10) @ [digit (n mod 10)])"
  by pat_completeness auto
termination
  by (relation "measure (\<lambda>n. n)") auto

declare decimal.simps [simp del]

definition number :: "int \<Rightarrow> string" where
  "number i = (if i < 0 then CHR ''-'' # decimal (nat (- i)) else decimal (nat i))"

definition intToString :: "32 word \<Rightarrow> QString" where
  "intToString v = QStr (number (sint v))"

text \<open>
  \<open>stringToInt\<close> is \<open>QString::toInt\<close>, a function of the Qt library; the getters take
  it as the parameter \<open>toInt\<close>.
\<close>

subsection \<open>The registry\<close>

text \<open>
  The enumeration \<open>KeyType\<close> and the exception classes are declared in
  \<open>abstractsettings.h\<close>; their members are taken from the \<open>switch\<close> of
  \<open>uniqueRegisterKey\<close>, which treats any other type as unreachable, and from the
  \<open>throw\<close> statements.
\<close>

datatype KeyType = BOOL | INTEGER | STRING

datatype error =
  IllegalKeyException | IllegalValueException | WrongTypeException | MissingKeyException

text \<open>
  A key is only ever tested with \<open>isEmpty\<close> and \<open>==\<close> and pasted into a longer
  string, all of which read its characters, so the \<open>key\<close> field holds the characters.
  The field \<open>value\<close> of the source is \<open>itemValue\<close> here.
\<close>

record SettingsItem =
  keyType :: KeyType
  key :: string
  itemValue :: QString
  defaultValue :: QString

text \<open>
  \<open>m_items\<close> is the list of items in registration order, \<open>m_default\<close> the
  preview-defaults flag; \<open>changed_emitted\<close> counts the emissions of the signal
  \<open>changed()\<close>.
\<close>

record AbstractSettings =
  m_items :: "SettingsItem list"
  m_default :: bool
  changed_emitted :: nat

text \<open>
  The constructor leaves \<open>m_items\<close> empty. The initialiser of \<open>m_default\<close> is in the
  class declaration, which is not part of the sources at hand, so the flag of a new
  registry is a parameter.
\<close>

definition newSettings :: "bool \<Rightarrow> AbstractSettings" where
  "newSettings d = \<lparr>m_items = [], m_default = d, changed_emitted = 0\<rparr>"

definition beginRestoreDefault :: "AbstractSettings \<Rightarrow> AbstractSettings" where
  "beginRestoreDefault s = s\<lparr>m_default := True\<rparr>"

definition endRestoreDefault :: "AbstractSettings \<Rightarrow> AbstractSettings" where
  "endRestoreDefault s = s\<lparr>m_default := False\<rparr>"

definition illegalKey :: "string \<Rightarrow> bool" where
  "illegalKey k = (k = [] \<or> k = UNDEFINED)"

definition illegalValue :: "QString \<Rightarrow> bool" where
  "illegalValue v = (isNull v \<or> chars v = UNDEFINED)"

subsection \<open>Registration\<close>

text \<open>
  The \<open>foreach\<close> of \<open>_q_addDefaultSetting\<close>: the first item of the same type and key
  gets the new default and the search ends; \<open>None\<close> when no item matches.
\<close>

fun replaceDefault :: "string \<Rightarrow> QString \<Rightarrow> KeyType \<Rightarrow> SettingsItem list \<Rightarrow> SettingsItem list option" where
  "replaceDefault k d t [] = None"
| "replaceDefault k d t (item # items) =
     (if keyType item = t \<and> key item = k
      then Some (item\<lparr>defaultValue := d\<rparr> # items)
      else map_option (\<lambda>items'. item # items') (replaceDefault k d t items))"

text \<open>
  A call returns the exception thrown, if any, and the registry as the call leaves it.
  A new item is default-constructed, so its \<open>value\<close> is the null string.
\<close>

definition q_addDefaultSetting ::
  "AbstractSettings \<Rightarrow> string \<Rightarrow> QString \<Rightarrow> KeyType \<Rightarrow> error option \<times> AbstractSettings" where
  "q_addDefaultSetting s k d t =
     (if illegalKey k then (Some IllegalKeyException, s)
      else if illegalValue d then (Some IllegalValueException, s)
      else case replaceDefault k d t (m_items s) of
             Some items' \<Rightarrow> (None, s\<lparr>m_items := items'\<rparr>)
           | None \<Rightarrow>
               (None, s\<lparr>m_items := m_items s @
                  [\<lparr>keyType = t, key = k, itemValue = QNull, defaultValue = d\<rparr>]\<rparr>))"

subsection \<open>Reading and writing one setting\<close>

fun getLoop :: "string \<Rightarrow> KeyType \<Rightarrow> bool \<Rightarrow> SettingsItem list \<Rightarrow> error + QString" where
  "getLoop k t dflt [] = Inl MissingKeyException"
| "getLoop k t dflt (item # items) =
     (if key item = k
      then (if keyType item \<noteq> t then Inl WrongTypeException
            else Inr (if dflt then defaultValue item else itemValue item))
      else getLoop k t dflt items)"

definition q_getSetting :: "AbstractSettings \<Rightarrow> string \<Rightarrow> KeyType \<Rightarrow> error + QString" where
  "q_getSetting s k t =
     (if illegalKey k then Inl IllegalKeyException
      else getLoop k t (m_default s) (m_items s))"

text \<open>
  The \<open>foreach\<close> of \<open>_q_setSetting\<close>: the first item with the key decides. The result
  is the exception, or the items after the call and whether \<open>changed()\<close> was emitted.
\<close>

fun setLoop :: "string \<Rightarrow> QString \<Rightarrow> KeyType \<Rightarrow> SettingsItem list \<Rightarrow> error + (SettingsItem list \<times> bool)" where
  "setLoop k v t [] = Inl MissingKeyException"
| "setLoop k v t (item # items) =
     (if key item = k
      then (if keyType item \<noteq> t then Inl WrongTypeException
            else if qne (itemValue item) v then Inr (item\<lparr>itemValue := v\<rparr> # items, True)
            else Inr (item # items, False))
      else (case setLoop k v t items of
              Inl e \<Rightarrow> Inl e
            | Inr (items', emitted) \<Rightarrow> Inr (item # items', emitted)))"

definition q_setSetting ::
  "AbstractSettings \<Rightarrow> string \<Rightarrow> QString \<Rightarrow> KeyType \<Rightarrow> error option \<times> AbstractSettings" where
  "q_setSetting s k v t =
     (if illegalKey k then (Some IllegalKeyException, s)
      else if illegalValue v then (Some IllegalValueException, s)
      else case setLoop k v t (m_items s) of
             Inl e \<Rightarrow> (Some e, s)
           | Inr (items', emitted) \<Rightarrow>
               (None, s\<lparr>m_items := items',
                        changed_emitted := changed_emitted s + (if emitted then 1 else 0)\<rparr>))"

subsection \<open>The typed interface\<close>

definition addDefaultSettingBool ::
  "AbstractSettings \<Rightarrow> string \<Rightarrow> bool \<Rightarrow> error option \<times> AbstractSettings" where
  "addDefaultSettingBool s k d = q_addDefaultSetting s k (boolToString d) BOOL"

definition getSettingBool :: "AbstractSettings \<Rightarrow> string \<Rightarrow> error + bool" where
  "getSettingBool s k = map_sum id stringToBool (q_getSetting s k BOOL)"

definition setSettingBool ::
  "AbstractSettings \<Rightarrow> string \<Rightarrow> bool \<Rightarrow> error option \<times> AbstractSettings" where
  "setSettingBool s k v = q_setSetting s k (boolToString v) BOOL"

definition addDefaultSettingInt ::
  "AbstractSettings \<Rightarrow> string \<Rightarrow> 32 word \<Rightarrow> error option \<times> AbstractSettings" where
  "addDefaultSettingInt s k d = q_addDefaultSetting s k (intToString d) INTEGER"

definition getSettingInt ::
  "(QString \<Rightarrow> 32 word) \<Rightarrow> AbstractSettings \<Rightarrow> string \<Rightarrow> error + 32 word" where
  "getSettingInt toInt s k = map_sum id toInt (q_getSetting s k INTEGER)"

definition setSettingInt ::
  "AbstractSettings \<Rightarrow> string \<Rightarrow> 32 word \<Rightarrow> error option \<times> AbstractSettings" where
  "setSettingInt s k v = q_setSetting s k (intToString v) INTEGER"

definition addDefaultSettingString ::
  "AbstractSettings \<Rightarrow> string \<Rightarrow> QString \<Rightarrow> error option \<times> AbstractSettings" where
  "addDefaultSettingString s k d = q_addDefaultSetting s k d STRING"

definition getSettingString :: "AbstractSettings \<Rightarrow> string \<Rightarrow> error + QString" where
  "getSettingString s k = q_getSetting s k STRING"

definition setSettingString ::
  "AbstractSettings \<Rightarrow> string \<Rightarrow> QString \<Rightarrow> error option \<times> AbstractSettings" where
  "setSettingString s k v = q_setSetting s k v STRING"

subsection \<open>String lists\<close>

text \<open>
  \<open>QString("%0%1").arg(key).arg(i)\<close> is the key followed by the decimal digits of
  \<open>i\<close>, for a key that holds no place marker of its own (a percent sign followed by a
  digit); the keys of this development are of that kind.
\<close>

definition subkey :: "string \<Rightarrow> nat \<Rightarrow> string" where
  "subkey k i = k @ decimal i"

text \<open>The inner \<open>foreach\<close> of \<open>getSettingStringList\<close> appends to \<open>ret\<close>.\<close>

fun collect :: "string \<Rightarrow> bool \<Rightarrow> SettingsItem list \<Rightarrow> QString list \<Rightarrow> QString list" where
  "collect sk dflt [] ret = ret"
| "collect sk dflt (item # items) ret =
     collect sk dflt items
       (if key item = sk then ret @ [if dflt then defaultValue item else itemValue item]
        else ret)"

function getListLoop ::
  "SettingsItem list \<Rightarrow> bool \<Rightarrow> string \<Rightarrow> nat \<Rightarrow> QString list \<Rightarrow> QString list" where
  "getListLoop items dflt k i ret =
     (if i < length items
      then getListLoop items dflt k (Suc i) (collect (subkey k i) dflt items ret)
      else ret)"
  by pat_completeness auto
termination
  by (relation "measure (\<lambda>(items, dflt, k, i, ret). length items - i)") auto

declare getListLoop.simps [simp del]

definition getSettingStringList :: "AbstractSettings \<Rightarrow> string \<Rightarrow> QString list" where
  "getSettingStringList s k = getListLoop (m_items s) (m_default s) k 0 []"

text \<open>
  The loops of \<open>addDefaultSettingStringList\<close> and \<open>setSettingStringList\<close> walk the
  list with the index \<open>i\<close>; an exception of the call for one element ends the loop and
  leaves the registry as it is at that point.
\<close>

fun addListLoop ::
  "AbstractSettings \<Rightarrow> string \<Rightarrow> nat \<Rightarrow> QString list \<Rightarrow> error option \<times> AbstractSettings" where
  "addListLoop s k i [] = (None, s)"
| "addListLoop s k i (subvalue # rest) =
     (case addDefaultSettingString s (subkey k i) subvalue of
        (Some e, s') \<Rightarrow> (Some e, s')
      | (None, s') \<Rightarrow> addListLoop s' k (Suc i) rest)"

definition addDefaultSettingStringList ::
  "AbstractSettings \<Rightarrow> string \<Rightarrow> QString list \<Rightarrow> error option \<times> AbstractSettings" where
  "addDefaultSettingStringList s k defaultValues = addListLoop s k 0 defaultValues"

fun setListLoop ::
  "AbstractSettings \<Rightarrow> string \<Rightarrow> nat \<Rightarrow> QString list \<Rightarrow> error option \<times> AbstractSettings" where
  "setListLoop s k i [] = (None, s)"
| "setListLoop s k i (subvalue # rest) =
     (case setSettingString s (subkey k i) subvalue of
        (Some e, s') \<Rightarrow> (Some e, s')
      | (None, s') \<Rightarrow> setListLoop s' k (Suc i) rest)"

definition setSettingStringList ::
  "AbstractSettings \<Rightarrow> string \<Rightarrow> QString list \<Rightarrow> error option \<times> AbstractSettings" where
  "setSettingStringList s k values = setListLoop s k 0 values"

subsection \<open>Persistence\<close>

text \<open>
  \<open>QSettings\<close> belongs to Qt. Its group \<open>Preference\<close> is a finite map from names to
  strings; \<open>setValue_calls\<close> records the calls of \<open>setValue\<close> in order.
\<close>

record QSettings =
  stored :: "string \<rightharpoonup> QString"
  setValue_calls :: "(string \<times> QString) list"

definition contains :: "QSettings \<Rightarrow> string \<Rightarrow> bool" where
  "contains st name = (stored st name \<noteq> None)"

definition settingsValue :: "QSettings \<Rightarrow> string \<Rightarrow> QString \<Rightarrow> QString" where
  "settingsValue st name dflt = (case stored st name of None \<Rightarrow> dflt | Some v \<Rightarrow> v)"

definition setValue :: "QSettings \<Rightarrow> string \<Rightarrow> QString \<Rightarrow> QSettings" where
  "setValue st name v =
     st\<lparr>stored := (stored st)(name \<mapsto> v), setValue_calls := setValue_calls st @ [(name, v)]\<rparr>"

definition uniqueRegisterKey :: "SettingsItem \<Rightarrow> string" where
  "uniqueRegisterKey item =
     (case keyType item of
        BOOL \<Rightarrow> key item @ ''_bool''
      | INTEGER \<Rightarrow> key item @ ''_int''
      | STRING \<Rightarrow> key item)"

definition readItem :: "QSettings \<Rightarrow> SettingsItem \<Rightarrow> SettingsItem" where
  "readItem st item =
     (let v = settingsValue st (uniqueRegisterKey item) (QStr UNDEFINED)
      in item\<lparr>itemValue := (if chars v \<noteq> UNDEFINED then v else defaultValue item)\<rparr>)"

definition readSettings :: "AbstractSettings \<Rightarrow> QSettings \<Rightarrow> AbstractSettings" where
  "readSettings s st =
     s\<lparr>m_items := map (readItem st) (m_items s), changed_emitted := changed_emitted s + 1\<rparr>"

fun writeLoop :: "SettingsItem list \<Rightarrow> QSettings \<Rightarrow> QSettings" where
  "writeLoop [] st = st"
| "writeLoop (item # items) st =
     writeLoop items
       (if qne (itemValue item) (defaultValue item) \<or> contains st (uniqueRegisterKey item)
        then setValue st (uniqueRegisterKey item) (itemValue item)
        else st)"

definition writeSettings :: "AbstractSettings \<Rightarrow> QSettings \<Rightarrow> QSettings" where
  "writeSettings s st = writeLoop (m_items s) st"

subsection \<open>Runs of the registry\<close>

text \<open>
  The mutating member functions as operations; a run applies them in order to a
  registry and a store. An exception ends the call that throws it and the run goes on
  from the registry left behind. The getters are \<open>const\<close> and are functions of the
  registry alone.
\<close>

datatype operation =
    AddDefaultSettingBool string bool
  | AddDefaultSettingInt string "32 word"
  | AddDefaultSettingString string QString
  | AddDefaultSettingStringList string "QString list"
  | SetSettingBool string bool
  | SetSettingInt string "32 word"
  | SetSettingString string QString
  | SetSettingStringList string "QString list"
  | BeginRestoreDefault
  | EndRestoreDefault
  | ReadSettings
  | WriteSettings

fun exec :: "operation \<Rightarrow> AbstractSettings \<times> QSettings \<Rightarrow> AbstractSettings \<times> QSettings" where
  "exec (AddDefaultSettingBool k d) (s, st) = (snd (addDefaultSettingBool s k d), st)"
| "exec (AddDefaultSettingInt k d) (s, st) = (snd (addDefaultSettingInt s k d), st)"
| "exec (AddDefaultSettingString k d) (s, st) = (snd (addDefaultSettingString s k d), st)"
| "exec (AddDefaultSettingStringList k ds) (s, st) = (snd (addDefaultSettingStringList s k ds), st)"
| "exec (SetSettingBool k v) (s, st) = (snd (setSettingBool s k v), st)"
| "exec (SetSettingInt k v) (s, st) = (snd (setSettingInt s k v), st)"
| "exec (SetSettingString k v) (s, st) = (snd (setSettingString s k v), st)"
| "exec (SetSettingStringList k vs) (s, st) = (snd (setSettingStringList s k vs), st)"
| "exec BeginRestoreDefault (s, st) = (beginRestoreDefault s, st)"
| "exec EndRestoreDefault (s, st) = (endRestoreDefault s, st)"
| "exec ReadSettings (s, st) = (readSettings s st, st)"
| "exec WriteSettings (s, st) = (s, writeSettings s st)"

fun run :: "operation list \<Rightarrow> AbstractSettings \<times> QSettings \<Rightarrow> AbstractSettings \<times> QSettings" where
  "run [] c = c"
| "run (x # xs) c = run xs (exec x c)"

text \<open>The operations that assign current values: the setters and the load.\<close>

fun setsOrLoads :: "operation \<Rightarrow> bool" where
  "setsOrLoads (SetSettingBool k v) = True"
| "setsOrLoads (SetSettingInt k v) = True"
| "setsOrLoads (SetSettingString k v) = True"
| "setsOrLoads (SetSettingStringList k vs) = True"
| "setsOrLoads ReadSettings = True"
| "setsOrLoads x = False"

text \<open>What holds of every item of every registry a run can produce.\<close>

definition itemInvariant :: "SettingsItem \<Rightarrow> bool" where
  "itemInvariant item =
     (\<not> illegalKey (key item) \<and> \<not> illegalValue (defaultValue item) \<and>
      chars (itemValue item) \<noteq> UNDEFINED)"

text \<open>Reading a decimal numeral back, to tell the sub-keys of a list apart.\<close>

fun digitsValue :: "string \<Rightarrow> nat \<Rightarrow> nat" where
  "digitsValue [] acc = acc"
| "digitsValue (c # cs) acc = digitsValue cs (10 * acc + (of_char c - 48))"

definition registryInvariant :: "AbstractSettings \<Rightarrow> bool" where
  "registryInvariant s = (\<forall>item \<in> set (m_items s). itemInvariant item)"

subsection \<open>Registries used as examples\<close>

definition emptyStore :: QSettings where
  "emptyStore = \<lparr>stored = Map.empty, setValue_calls = []\<rparr>"

text \<open>Sub-keys \<open>p0\<close> and \<open>p2\<close> of a list \<open>p\<close> with no \<open>p1\<close>, loaded from an empty store.\<close>

definition gapRegistry :: AbstractSettings where
  "gapRegistry =
     fst (run [AddDefaultSettingString ''p0'' (QStr ''a''),
               AddDefaultSettingString ''p2'' (QStr ''c''),
               AddDefaultSettingString ''x'' (QStr ''y''),
               ReadSettings]
            (newSettings False, emptyStore))"

text \<open>One string setting \<open>k\<close> with the default \<open>d\<close>, set to \<open>a\<close>.\<close>

definition stringRegistry :: AbstractSettings where
  "stringRegistry =
     fst (run [AddDefaultSettingString ''k'' (QStr ''d''),
               SetSettingString ''k'' (QStr ''a'')]
            (newSettings False, emptyStore))"

text \<open>One Boolean setting \<open>k\<close> with the default \<open>False\<close>, before and after it is set.\<close>

definition boolRegistry0 :: AbstractSettings where
  "boolRegistry0 =
     fst (run [AddDefaultSettingBool ''k'' False] (newSettings False, emptyStore))"

definition boolRegistry :: AbstractSettings where
  "boolRegistry = snd (setSettingBool boolRegistry0 ''k'' True)"


text \<open>
  A string setting \<open>k\<close> set away from its default and a Boolean setting \<open>flag\<close> left
  at its default.
\<close>

definition saveRegistry :: AbstractSettings where
  "saveRegistry =
     fst (run [AddDefaultSettingString ''k'' (QStr ''d''),
               AddDefaultSettingBool ''flag'' False,
               ReadSettings,
               SetSettingString ''k'' (QStr ''a'')]
            (newSettings False, emptyStore))"

text \<open>
  A string setting \<open>a_bool\<close> and a Boolean setting \<open>a\<close>, the second set to \<open>True\<close>;
  and the registry that registers the same two settings anew and loads what the first
  one saved into an empty store.
\<close>

definition collidingRegistry :: AbstractSettings where
  "collidingRegistry =
     fst (run [AddDefaultSettingString ''a_bool'' (QStr ''s''),
               AddDefaultSettingBool ''a'' False,
               ReadSettings,
               SetSettingBool ''a'' True]
            (newSettings False, emptyStore))"

definition reloadedRegistry :: AbstractSettings where
  "reloadedRegistry =
     fst (run [AddDefaultSettingString ''a_bool'' (QStr ''s''),
               AddDefaultSettingBool ''a'' False,
               ReadSettings]
            (newSettings False, writeSettings collidingRegistry emptyStore))"

text \<open>One string setting whose key is \<open>0\<close>.\<close>

definition zeroRegistry :: AbstractSettings where
  "zeroRegistry =
     fst (run [AddDefaultSettingString ''0'' (QStr ''z''), ReadSettings]
            (newSettings False, emptyStore))"

text \<open>One integer setting \<open>n\<close> with the default 5, set to 12.\<close>

definition intRegistry :: AbstractSettings where
  "intRegistry =
     fst (run [AddDefaultSettingInt ''n'' 5, SetSettingInt ''n'' 12]
            (newSettings False, emptyStore))"

text \<open>
  Registries that have only seen registrations: an integer setting \<open>x\<close>; and the same
  in preview-defaults mode.
\<close>

definition registeredInt :: AbstractSettings where
  "registeredInt =
     fst (run [AddDefaultSettingInt ''x'' 1] (newSettings False, emptyStore))"

definition registeredPreview :: AbstractSettings where
  "registeredPreview =
     fst (run [AddDefaultSettingInt ''x'' 1, BeginRestoreDefault] (newSettings False, emptyStore))"

text \<open>
  The key \<open>x\<close> registered as an integer and then as a Boolean setting, in
  preview-defaults mode.
\<close>

definition twoTypesPreview :: AbstractSettings where
  "twoTypesPreview =
     fst (run [AddDefaultSettingInt ''x'' 1, AddDefaultSettingBool ''x'' True,
               BeginRestoreDefault]
            (newSettings False, emptyStore))"

text \<open>
  A Boolean setting \<open>a\<close> set to \<open>True\<close>, followed by a string setting \<open>a_bool\<close> left at
  its default.
\<close>

definition collidingRegistry2 :: AbstractSettings where
  "collidingRegistry2 =
     fst (run [AddDefaultSettingBool ''a'' False,
               AddDefaultSettingString ''a_bool'' (QStr ''s''),
               ReadSettings,
               SetSettingBool ''a'' True]
            (newSettings False, emptyStore))"

section \<open>Properties\<close>

subsection \<open>A Boolean setting right after its registration\<close>

lemma replaceDefault_null:
  "replaceDefault k d t items = Some items' \<Longrightarrow>
   \<forall>item \<in> set items. itemValue item = QNull \<Longrightarrow> \<forall>item \<in> set items'. itemValue item = QNull"
  by (induction items arbitrary: items') (auto split: if_splits)

lemma q_addDefaultSetting_null:
  "\<forall>item \<in> set (m_items s). itemValue item = QNull \<Longrightarrow>
   \<forall>item \<in> set (m_items (snd (q_addDefaultSetting s k d t))). itemValue item = QNull"
  by (auto simp: q_addDefaultSetting_def split: option.splits dest: replaceDefault_null)

lemma addListLoop_null:
  "\<forall>item \<in> set (m_items s). itemValue item = QNull \<Longrightarrow>
   \<forall>item \<in> set (m_items (snd (addListLoop s k i vs))). itemValue item = QNull"
proof (induction vs arbitrary: s i)
  case Nil
  then show ?case by simp
next
  case (Cons v vs)
  have "\<forall>item \<in> set (m_items (snd (addDefaultSettingString s (subkey k i) v))). itemValue item = QNull"
    unfolding addDefaultSettingString_def using Cons.prems by (rule q_addDefaultSetting_null)
  then show ?case
    using Cons.IH by (auto split: prod.splits option.splits)
qed

lemma exec_null:
  assumes "\<not> setsOrLoads x" and "\<forall>item \<in> set (m_items (fst c)). itemValue item = QNull"
  shows "\<forall>item \<in> set (m_items (fst (exec x c))). itemValue item = QNull"
proof (cases c)
  case (Pair s st)
  then have n: "\<forall>item \<in> set (m_items s). itemValue item = QNull"
    using assms(2) by simp
  show ?thesis
    using assms(1) Pair n q_addDefaultSetting_null [OF n] addListLoop_null [OF n]
    by (cases x)
       (simp_all add: addDefaultSettingBool_def addDefaultSettingInt_def
          addDefaultSettingString_def addDefaultSettingStringList_def
          beginRestoreDefault_def endRestoreDefault_def)
qed

lemma run_null:
  "\<forall>x \<in> set ops. \<not> setsOrLoads x \<Longrightarrow> \<forall>item \<in> set (m_items (fst c)). itemValue item = QNull \<Longrightarrow>
   \<forall>item \<in> set (m_items (fst (run ops c))). itemValue item = QNull"
proof (induction ops arbitrary: c)
  case Nil
  then show ?case by simp
next
  case (Cons x xs)
  have "\<forall>item \<in> set (m_items (fst (exec x c))). itemValue item = QNull"
    using Cons.prems by (intro exec_null) auto
  then show ?case
    using Cons by simp
qed

lemma getLoop_find:
  "getLoop k t dflt items =
     (case find (\<lambda>item. key item = k) items of
        None \<Rightarrow> Inl MissingKeyException
      | Some item \<Rightarrow>
          if keyType item \<noteq> t then Inl WrongTypeException
          else Inr (if dflt then defaultValue item else itemValue item))"
  by (induction items) auto

lemma find_registered:
  "find (\<lambda>item. key item = k)
     (case replaceDefault k d t items of
        Some items' \<Rightarrow> items'
      | None \<Rightarrow> items @ [\<lparr>keyType = t, key = k, itemValue = QNull, defaultValue = d\<rparr>]) =
   Some (case find (\<lambda>item. key item = k) items of
           None \<Rightarrow> \<lparr>keyType = t, key = k, itemValue = QNull, defaultValue = d\<rparr>
         | Some item \<Rightarrow> if keyType item = t then item\<lparr>defaultValue := d\<rparr> else item)"
  by (induction items) (auto split: option.splits)

lemma find_readItem:
  "find (\<lambda>item. key item = k) (map (readItem st) items) =
   map_option (readItem st) (find (\<lambda>item. key item = k) items)"
  by (induction items) (auto simp: readItem_def Let_def)

lemma stringToBool_boolToString: "stringToBool (boolToString d) = d"
  by (simp add: stringToBool_def boolToString_def VALUE_TRUE_def VALUE_FALSE_def)

lemma stringToBool_QNull: "\<not> stringToBool QNull"
  by (simp add: stringToBool_def VALUE_TRUE_def)

lemma itemValue_readItem:
  "itemValue (readItem st item) =
     (case stored st (uniqueRegisterKey item) of
        None \<Rightarrow> defaultValue item
      | Some v \<Rightarrow> if chars v \<noteq> UNDEFINED then v else defaultValue item)"
  by (simp add: readItem_def settingsValue_def Let_def split: option.splits)

text \<open>
  C1, as the code has it. Let \<open>s\<close> be a registry on which nothing has been set or
  loaded since it was constructed (registrations, mode switches and saves may have
  happened), and let \<open>addDefaultSettingBool s k d\<close> return normally. If the first
  entry registered under \<open>k\<close> is a Boolean one, \<open>getSettingBool\<close> returns \<open>False\<close>
  whatever \<open>d\<close> is when the registry is not in preview-defaults mode, because the
  current value of the entry is still the null string, and \<open>d\<close> in preview-defaults
  mode; after \<open>readSettings\<close> it returns, outside preview-defaults mode, what the store
  holds under \<open>k_bool\<close>, and \<open>d\<close> when the store holds nothing or the sentinel there.
  If the first entry registered under \<open>k\<close> has another type, \<open>getSettingBool\<close> throws
  \<open>WrongTypeException\<close>.
\<close>

theorem registerBool_then_getBool:
  assumes "\<forall>x \<in> set ops. \<not> setsOrLoads x"
    and "s = fst (run ops (newSettings m, st))"
    and "addDefaultSettingBool s k d = (None, s')"
  shows "getSettingBool s' k =
           (case find (\<lambda>item. key item = k) (m_items s) of
              None \<Rightarrow> Inr (if m_default s' then d else False)
            | Some item \<Rightarrow>
                if keyType item = BOOL then Inr (if m_default s' then d else False)
                else Inl WrongTypeException)
       \<and> getSettingBool (readSettings s' st') k =
           (case find (\<lambda>item. key item = k) (m_items s) of
              None \<Rightarrow>
                Inr (if m_default s' then d
                     else case stored st' (k @ ''_bool'') of
                            None \<Rightarrow> d
                          | Some v \<Rightarrow> if chars v \<noteq> UNDEFINED then stringToBool v else d)
            | Some item \<Rightarrow>
                if keyType item = BOOL
                then Inr (if m_default s' then d
                          else case stored st' (k @ ''_bool'') of
                                 None \<Rightarrow> d
                               | Some v \<Rightarrow> if chars v \<noteq> UNDEFINED then stringToBool v else d)
                else Inl WrongTypeException)"
proof -
  let ?new = "\<lparr>keyType = BOOL, key = k, itemValue = QNull, defaultValue = boolToString d\<rparr>"
  let ?items = "case replaceDefault k (boolToString d) BOOL (m_items s) of
        Some items' \<Rightarrow> items'
      | None \<Rightarrow> m_items s @ [?new]"
  let ?found = "case find (\<lambda>item. key item = k) (m_items s) of
           None \<Rightarrow> ?new
         | Some item \<Rightarrow> if keyType item = BOOL then item\<lparr>defaultValue := boolToString d\<rparr> else item"
  have legal: "\<not> illegalKey k"
    using assms(3) by (auto simp: addDefaultSettingBool_def q_addDefaultSetting_def split: if_splits)
  have s': "m_items s' = ?items" "m_default s' = m_default s"
    using assms(3)
    by (auto simp: addDefaultSettingBool_def q_addDefaultSetting_def
        split: if_splits option.splits)
  have null: "\<forall>item \<in> set (m_items s). itemValue item = QNull"
    unfolding assms(2) using assms(1) by (rule run_null) (simp add: newSettings_def)
  have found: "find (\<lambda>item. key item = k) ?items = Some ?found"
    by (rule find_registered)
  have get: "q_getSetting s' k BOOL =
      (if keyType ?found \<noteq> BOOL then Inl WrongTypeException
       else Inr (if m_default s' then defaultValue ?found else itemValue ?found))"
    using legal found by (simp add: q_getSetting_def getLoop_find s'(1))
  have load: "q_getSetting (readSettings s' st') k BOOL =
      (if keyType ?found \<noteq> BOOL then Inl WrongTypeException
       else Inr (if m_default s' then defaultValue ?found else itemValue (readItem st' ?found)))"
    using legal found
    by (simp add: q_getSetting_def getLoop_find readSettings_def find_readItem s'(1)
        readItem_def Let_def)
  show ?thesis
  proof (cases "find (\<lambda>item. key item = k) (m_items s)")
    case None
    then show ?thesis
      using get load
      by (auto simp: getSettingBool_def stringToBool_boolToString stringToBool_QNull
          itemValue_readItem uniqueRegisterKey_def split: option.splits)
  next
    case (Some item)
    then have "item \<in> set (m_items s)" and k: "key item = k"
      by (auto simp: find_Some_iff in_set_conv_nth)
    then have v: "itemValue item = QNull"
      using null by simp
    show ?thesis
    proof (cases "keyType item = BOOL")
      case True
      then show ?thesis
        using get load Some v k
        by (auto simp: getSettingBool_def stringToBool_boolToString stringToBool_QNull
            itemValue_readItem uniqueRegisterKey_def split: option.splits)
    next
      case False
      then show ?thesis
        using get load Some by (simp add: getSettingBool_def)
    qed
  qed
qed

theorem registerBool_then_getBool_witness:
  "\<not> setsOrLoads (AddDefaultSettingInt ''x'' 1) \<and> \<not> setsOrLoads BeginRestoreDefault
   \<and> fst (addDefaultSettingBool registeredInt ''k'' True) = None
   \<and> find (\<lambda>item. key item = ''k'') (m_items registeredInt) = None
   \<and> getSettingBool (snd (addDefaultSettingBool registeredInt ''k'' True)) ''k'' = Inr False
   \<and> getSettingBool (readSettings (snd (addDefaultSettingBool registeredInt ''k'' True)) emptyStore)
        ''k'' = Inr True
   \<and> fst (addDefaultSettingBool registeredInt ''x'' True) = None
   \<and> getSettingBool (snd (addDefaultSettingBool registeredInt ''x'' True)) ''x'' =
       Inl WrongTypeException
   \<and> fst (addDefaultSettingBool registeredPreview ''k'' True) = None
   \<and> getSettingBool (snd (addDefaultSettingBool registeredPreview ''k'' True)) ''k'' = Inr True"
proof -
  let ?x = "\<lparr>keyType = INTEGER, key = ''x'', itemValue = QNull, defaultValue = QStr ''1''\<rparr>"
  have o1: "\<forall>x \<in> set [AddDefaultSettingInt ''x'' 1]. \<not> setsOrLoads x"
    and o2: "\<forall>x \<in> set [AddDefaultSettingInt ''x'' 1, BeginRestoreDefault]. \<not> setsOrLoads x"
    by simp_all
  have a: "addDefaultSettingBool registeredInt ''k'' True =
      (None, snd (addDefaultSettingBool registeredInt ''k'' True))"
    and b: "addDefaultSettingBool registeredInt ''x'' True =
      (None, snd (addDefaultSettingBool registeredInt ''x'' True))"
    and c: "addDefaultSettingBool registeredPreview ''k'' True =
      (None, snd (addDefaultSettingBool registeredPreview ''k'' True))"
    by code_simp+
  have fa: "find (\<lambda>item. key item = ''k'') (m_items registeredInt) = None"
    and fb: "find (\<lambda>item. key item = ''x'') (m_items registeredInt) = Some ?x"
    and fc: "find (\<lambda>item. key item = ''k'') (m_items registeredPreview) = None"
    by code_simp+
  have ma: "\<not> m_default (snd (addDefaultSettingBool registeredInt ''k'' True))"
    and mc: "m_default (snd (addDefaultSettingBool registeredPreview ''k'' True))"
    by code_simp+
  have st: "stored emptyStore (''k'' @ ''_bool'') = None"
    by (simp add: emptyStore_def)
  note A = registerBool_then_getBool [OF o1 registeredInt_def a, of emptyStore]
  note B = registerBool_then_getBool [OF o1 registeredInt_def b, of emptyStore]
  note C = registerBool_then_getBool [OF o2 registeredPreview_def c, of emptyStore]
  have r1: "getSettingBool (snd (addDefaultSettingBool registeredInt ''k'' True)) ''k'' = Inr False"
    using A [THEN conjunct1] by (simp add: fa ma)
  have r2: "getSettingBool (readSettings (snd (addDefaultSettingBool registeredInt ''k'' True))
      emptyStore) ''k'' = Inr True"
    using A [THEN conjunct2] st by (simp add: fa ma)
  have r3: "getSettingBool (snd (addDefaultSettingBool registeredInt ''x'' True)) ''x'' =
      Inl WrongTypeException"
    using B [THEN conjunct1] by (simp add: fb)
  have r4: "getSettingBool (snd (addDefaultSettingBool registeredPreview ''k'' True)) ''k'' = Inr True"
    using C [THEN conjunct1] by (simp add: fc mc)
  have f1: "fst (addDefaultSettingBool registeredInt ''k'' True) = None"
    and f2: "fst (addDefaultSettingBool registeredInt ''x'' True) = None"
    and f3: "fst (addDefaultSettingBool registeredPreview ''k'' True) = None"
    using a b c by (metis fst_conv)+
  have n: "\<not> setsOrLoads (AddDefaultSettingInt ''x'' 1)" "\<not> setsOrLoads BeginRestoreDefault"
    by simp_all
  show ?thesis
    using n f1 fa r1 r2 f2 r3 f3 r4 by (intro conjI)
qed

text \<open>
  The claim as it is written fails for the default \<open>True\<close>: outside preview-defaults
  mode the getter returns \<open>False\<close>. And it fails for a key that was registered as an
  integer before: the getter throws.
\<close>

theorem registerBool_then_getBool_counterexample:
  "fst (addDefaultSettingBool (newSettings False) ''k'' True) = None
   \<and> getSettingBool (snd (addDefaultSettingBool (newSettings False) ''k'' True)) ''k'' = Inr False
   \<and> fst (addDefaultSettingBool registeredInt ''x'' True) = None
   \<and> getSettingBool (snd (addDefaultSettingBool registeredInt ''x'' True)) ''x'' =
       Inl WrongTypeException"
  by code_simp

subsection \<open>What every reachable registry satisfies\<close>

lemma boolToString_legal: "\<not> illegalValue (boolToString b)"
  by (simp add: illegalValue_def boolToString_def UNDEFINED_def VALUE_TRUE_def VALUE_FALSE_def)

lemma replaceDefault_invariant:
  "replaceDefault k d t items = Some items' \<Longrightarrow> \<not> illegalValue d \<Longrightarrow>
   \<forall>item \<in> set items. itemInvariant item \<Longrightarrow> \<forall>item \<in> set items'. itemInvariant item"
  by (induction items arbitrary: items') (auto simp: itemInvariant_def split: if_splits)

lemma q_addDefaultSetting_invariant:
  "registryInvariant s \<Longrightarrow> registryInvariant (snd (q_addDefaultSetting s k d t))"
  by (auto simp: registryInvariant_def q_addDefaultSetting_def itemInvariant_def UNDEFINED_def
      split: option.splits dest: replaceDefault_invariant[unfolded itemInvariant_def])

lemma setLoop_invariant:
  "setLoop k v t items = Inr (items', e) \<Longrightarrow> \<not> illegalValue v \<Longrightarrow>
   \<forall>item \<in> set items. itemInvariant item \<Longrightarrow> \<forall>item \<in> set items'. itemInvariant item"
  by (induction items arbitrary: items' e)
     (auto simp: itemInvariant_def illegalValue_def split: if_splits sum.splits)

lemma q_setSetting_invariant:
  "registryInvariant s \<Longrightarrow> registryInvariant (snd (q_setSetting s k v t))"
  by (auto simp: registryInvariant_def q_setSetting_def
      split: sum.splits dest: setLoop_invariant)

lemma addListLoop_invariant:
  "registryInvariant s \<Longrightarrow> registryInvariant (snd (addListLoop s k i vs))"
proof (induction vs arbitrary: s i)
  case Nil
  then show ?case by simp
next
  case (Cons v vs)
  have "registryInvariant (snd (addDefaultSettingString s (subkey k i) v))"
    unfolding addDefaultSettingString_def using Cons.prems by (rule q_addDefaultSetting_invariant)
  then show ?case
    using Cons.IH by (auto split: prod.splits option.splits)
qed

lemma setListLoop_invariant:
  "registryInvariant s \<Longrightarrow> registryInvariant (snd (setListLoop s k i vs))"
proof (induction vs arbitrary: s i)
  case Nil
  then show ?case by simp
next
  case (Cons v vs)
  have "registryInvariant (snd (setSettingString s (subkey k i) v))"
    unfolding setSettingString_def using Cons.prems by (rule q_setSetting_invariant)
  then show ?case
    using Cons.IH by (auto split: prod.splits option.splits)
qed

lemma readItem_invariant: "itemInvariant item \<Longrightarrow> itemInvariant (readItem st item)"
  by (auto simp: itemInvariant_def readItem_def Let_def illegalValue_def)

lemma readSettings_invariant: "registryInvariant s \<Longrightarrow> registryInvariant (readSettings s st)"
  by (auto simp: registryInvariant_def readSettings_def readItem_invariant)

lemma exec_invariant:
  "registryInvariant (fst c) \<Longrightarrow> registryInvariant (fst (exec x c))"
proof (cases c)
  case (Pair s st)
  assume "registryInvariant (fst c)"
  then have inv: "registryInvariant s" using Pair by simp
  show ?thesis
  proof (cases x)
    case ReadSettings
    then show ?thesis using inv Pair by (simp add: readSettings_invariant)
  next
    case BeginRestoreDefault
    then show ?thesis using inv Pair by (simp add: registryInvariant_def beginRestoreDefault_def)
  next
    case EndRestoreDefault
    then show ?thesis using inv Pair by (simp add: registryInvariant_def endRestoreDefault_def)
  qed (use inv Pair in \<open>simp_all add: addDefaultSettingBool_def addDefaultSettingInt_def
        addDefaultSettingString_def addDefaultSettingStringList_def setSettingBool_def
        setSettingInt_def setSettingString_def setSettingStringList_def
        q_addDefaultSetting_invariant q_setSetting_invariant addListLoop_invariant
        setListLoop_invariant\<close>)
qed

lemma run_invariant:
  "registryInvariant (fst c) \<Longrightarrow> registryInvariant (fst (run ops c))"
  by (induction ops arbitrary: c) (auto simp: exec_invariant)

text \<open>
  C2, as the code has it. After every sequence of registrations, sets, loads, saves and
  mode switches on a new registry, whatever the store holds, every entry has a default
  value that is neither null nor the sentinel \<open><UNDEFINED>\<close>, and a current value
  that is not the sentinel. (The current value can be null: see the counterexample.)
\<close>

theorem values_never_undefined:
  "\<forall>item \<in> set (m_items (fst (run ops (newSettings m, st)))).
     \<not> isNull (defaultValue item) \<and> chars (defaultValue item) \<noteq> UNDEFINED \<and>
     chars (itemValue item) \<noteq> UNDEFINED"
proof -
  have "registryInvariant (fst (newSettings m, st))"
    by (simp add: registryInvariant_def newSettings_def)
  then have "registryInvariant (fst (run ops (newSettings m, st)))"
    by (rule run_invariant)
  then show ?thesis
    by (auto simp: registryInvariant_def itemInvariant_def illegalValue_def)
qed

theorem values_never_undefined_witness:
  "m_items (fst (run [AddDefaultSettingString ''k'' (QStr ''d''), ReadSettings,
        SetSettingString ''k'' (QStr ''v'')] (newSettings False, emptyStore))) =
     [\<lparr>keyType = STRING, key = ''k'', itemValue = QStr ''v'', defaultValue = QStr ''d''\<rparr>]
   \<and> \<not> isNull (QStr ''d'') \<and> chars (QStr ''d'') \<noteq> UNDEFINED \<and> chars (QStr ''v'') \<noteq> UNDEFINED"
proof -
  let ?ops = "[AddDefaultSettingString ''k'' (QStr ''d''), ReadSettings,
        SetSettingString ''k'' (QStr ''v'')]"
  let ?item = "\<lparr>keyType = STRING, key = ''k'', itemValue = QStr ''v'', defaultValue = QStr ''d''\<rparr>"
  have items: "m_items (fst (run ?ops (newSettings False, emptyStore))) = [?item]"
    by code_simp
  then have "?item \<in> set (m_items (fst (run ?ops (newSettings False, emptyStore))))"
    by simp
  then have "\<not> isNull (defaultValue ?item) \<and> chars (defaultValue ?item) \<noteq> UNDEFINED \<and>
      chars (itemValue ?item) \<noteq> UNDEFINED"
    using values_never_undefined [of ?ops False emptyStore] by blast
  then show ?thesis
    using items by simp
qed

text \<open>
  The claim as it is written fails right after a registration: the current value of the
  new entry is the null string.
\<close>

theorem values_never_undefined_counterexample:
  "m_items (fst (run [AddDefaultSettingBool ''k'' True] (newSettings False, emptyStore))) =
     [\<lparr>keyType = BOOL, key = ''k'', itemValue = QNull, defaultValue = QStr ''<TRUE>''\<rparr>]
   \<and> isNull (itemValue
         \<lparr>keyType = BOOL, key = ''k'', itemValue = QNull, defaultValue = QStr ''<TRUE>''\<rparr>)"
  by code_simp

subsection \<open>Reading a string list\<close>

lemma collect_filter:
  "collect sk dflt items ret =
     ret @ map (\<lambda>item. if dflt then defaultValue item else itemValue item)
             (filter (\<lambda>item. key item = sk) items)"
  by (induction items arbitrary: ret) auto

lemma getListLoop_concat:
  "getListLoop items dflt k i ret =
     ret @ concat (map (\<lambda>j. map (\<lambda>item. if dflt then defaultValue item else itemValue item)
                                (filter (\<lambda>item. key item = subkey k j) items))
                       [i..<length items])"
proof (induction items dflt k i ret rule: getListLoop.induct)
  case (1 items dflt k i ret)
  show ?case
  proof (cases "i < length items")
    case True
    then show ?thesis
      using "1.IH" by (subst getListLoop.simps) (simp add: collect_filter upt_conv_Cons)
  next
    case False
    then show ?thesis
      by (subst getListLoop.simps) simp
  qed
qed

text \<open>
  C3, as the code has it. \<open>getSettingStringList s k\<close> takes the indices \<open>i\<close> below the
  number of registered items in increasing order and, for each, the effective values
  (the default in preview-defaults mode, the current value otherwise) of all items whose
  key is \<open>k\<close> followed by \<open>i\<close>, in registration order. An index with no item adds
  nothing and does not end the scan: every item with such a key is in the result,
  whatever is missing before it.
\<close>

theorem getSettingStringList_scan:
  "getSettingStringList s k =
     concat (map (\<lambda>i. map (\<lambda>item. if m_default s then defaultValue item else itemValue item)
                          (filter (\<lambda>item. key item = subkey k i) (m_items s)))
                 [0..<length (m_items s)])
   \<and> (\<forall>item \<in> set (m_items s). \<forall>i < length (m_items s). key item = subkey k i \<longrightarrow>
         (if m_default s then defaultValue item else itemValue item)
           \<in> set (getSettingStringList s k))"
proof -
  have eq: "getSettingStringList s k =
     concat (map (\<lambda>i. map (\<lambda>item. if m_default s then defaultValue item else itemValue item)
                          (filter (\<lambda>item. key item = subkey k i) (m_items s)))
                 [0..<length (m_items s)])"
    by (simp add: getSettingStringList_def getListLoop_concat)
  show ?thesis
    unfolding eq by (rule conjI, rule refl) force
qed

theorem getSettingStringList_scan_witness:
  "\<lparr>keyType = STRING, key = ''p2'', itemValue = QStr ''c'', defaultValue = QStr ''c''\<rparr>
     \<in> set (m_items gapRegistry)
   \<and> 2 < length (m_items gapRegistry)
   \<and> ''p2'' = subkey ''p'' 2
   \<and> \<not> m_default gapRegistry
   \<and> QStr ''c'' \<in> set (getSettingStringList gapRegistry ''p'')"
proof -
  let ?item = "\<lparr>keyType = STRING, key = ''p2'', itemValue = QStr ''c'', defaultValue = QStr ''c''\<rparr>"
  have a: "?item \<in> set (m_items gapRegistry)" by code_simp
  have b: "2 < length (m_items gapRegistry)" by code_simp
  have c: "''p2'' = subkey ''p'' 2" by code_simp
  have d: "\<not> m_default gapRegistry" by code_simp
  have "key ?item = subkey ''p'' 2 \<longrightarrow>
        (if m_default gapRegistry then defaultValue ?item else itemValue ?item)
           \<in> set (getSettingStringList gapRegistry ''p'')"
    using getSettingStringList_scan [of gapRegistry "''p''"] a b by blast
  then show ?thesis
    using a b c d by simp
qed

text \<open>
  The claim as it is written fails on a list with a gap: \<open>p1\<close> is not registered, and
  the value of \<open>p2\<close> is returned all the same.
\<close>

theorem getSettingStringList_scan_counterexample:
  "getSettingString gapRegistry ''p1'' = Inl MissingKeyException
   \<and> getSettingStringList gapRegistry ''p'' = [QStr ''a'', QStr ''c'']"
  by code_simp

subsection \<open>Setting a value and the signal\<close>

lemma digit_not_gt: "d < 10 \<Longrightarrow> digit d \<noteq> CHR ''>''"
proof
  assume "d < 10" and "digit d = CHR ''>''"
  then have "of_char (digit d) = (of_char (CHR ''>'') :: nat)" by simp
  then show False using \<open>d < 10\<close> by (simp add: digit_def)
qed

lemma decimal_last: "decimal n \<noteq> [] \<and> last (decimal n) = digit (n mod 10)"
  by (subst decimal.simps, subst (2) decimal.simps) simp

lemma number_not_UNDEFINED: "number i \<noteq> UNDEFINED"
proof
  assume "number i = UNDEFINED"
  then have "last (number i) = CHR ''>''" by (simp add: UNDEFINED_def)
  moreover have "last (number i) = digit (nat \<bar>i\<bar> mod 10)"
    using decimal_last by (auto simp: number_def)
  ultimately show False using digit_not_gt [of "nat \<bar>i\<bar> mod 10"] by simp
qed

lemma intToString_legal: "\<not> illegalValue (intToString v)"
  by (simp add: illegalValue_def intToString_def number_not_UNDEFINED)

lemma setLoop_found:
  "\<forall>x \<in> set pre. key x \<noteq> k \<Longrightarrow> key item = k \<Longrightarrow> keyType item = t \<Longrightarrow>
   setLoop k v t (pre @ item # post) =
     Inr (if qne (itemValue item) v then (pre @ item\<lparr>itemValue := v\<rparr> # post, True)
          else (pre @ item # post, False))"
  by (induction pre) auto

lemma q_setSetting_found:
  assumes "m_items s = pre @ item # post" and "\<forall>x \<in> set pre. key x \<noteq> k"
    and "key item = k" and "keyType item = t" and "\<not> illegalKey k" and "\<not> illegalValue v"
  shows "q_setSetting s k v t =
     (None, if qne (itemValue item) v
            then s\<lparr>m_items := pre @ item\<lparr>itemValue := v\<rparr> # post,
                   changed_emitted := changed_emitted s + 1\<rparr>
            else s)"
  using assms by (simp add: q_setSetting_def setLoop_found)

text \<open>
  C4, as the code has it. Let \<open>item\<close> be the entry that the lookup of \<open>k\<close> finds (the
  first one registered under \<open>k\<close>). A setter of the type of \<open>item\<close> returns normally;
  it stores the serialized value in \<open>item\<close> and emits \<open>changed()\<close> exactly once when
  that value differs from the current one, and it leaves the whole registry as it is,
  emitting nothing, when the two are equal. For \<open>setSettingString\<close> this holds of a
  value that is neither null nor the sentinel; with a null or sentinel value the call
  throws \<open>IllegalValueException\<close> and changes nothing.
\<close>

theorem setSetting_changed_once:
  assumes "m_items s = pre @ item # post" and "\<forall>x \<in> set pre. key x \<noteq> k"
    and "key item = k" and "\<not> illegalKey k"
  shows "(keyType item = BOOL \<longrightarrow>
            setSettingBool s k b =
              (None, if qne (itemValue item) (boolToString b)
                     then s\<lparr>m_items := pre @ item\<lparr>itemValue := boolToString b\<rparr> # post,
                            changed_emitted := changed_emitted s + 1\<rparr>
                     else s))
       \<and> (keyType item = INTEGER \<longrightarrow>
            setSettingInt s k n =
              (None, if qne (itemValue item) (intToString n)
                     then s\<lparr>m_items := pre @ item\<lparr>itemValue := intToString n\<rparr> # post,
                            changed_emitted := changed_emitted s + 1\<rparr>
                     else s))
       \<and> (keyType item = STRING \<longrightarrow>
            setSettingString s k v =
              (if illegalValue v then (Some IllegalValueException, s)
               else (None, if qne (itemValue item) v
                           then s\<lparr>m_items := pre @ item\<lparr>itemValue := v\<rparr> # post,
                                  changed_emitted := changed_emitted s + 1\<rparr>
                           else s)))"
proof (intro conjI impI)
  assume "keyType item = BOOL"
  then show "setSettingBool s k b =
      (None, if qne (itemValue item) (boolToString b)
             then s\<lparr>m_items := pre @ item\<lparr>itemValue := boolToString b\<rparr> # post,
                    changed_emitted := changed_emitted s + 1\<rparr>
             else s)"
    unfolding setSettingBool_def
    using assms boolToString_legal by (intro q_setSetting_found)
next
  assume "keyType item = INTEGER"
  then show "setSettingInt s k n =
      (None, if qne (itemValue item) (intToString n)
             then s\<lparr>m_items := pre @ item\<lparr>itemValue := intToString n\<rparr> # post,
                    changed_emitted := changed_emitted s + 1\<rparr>
             else s)"
    unfolding setSettingInt_def
    using assms intToString_legal by (intro q_setSetting_found)
next
  assume t: "keyType item = STRING"
  show "setSettingString s k v =
      (if illegalValue v then (Some IllegalValueException, s)
       else (None, if qne (itemValue item) v
                   then s\<lparr>m_items := pre @ item\<lparr>itemValue := v\<rparr> # post,
                          changed_emitted := changed_emitted s + 1\<rparr>
                   else s))"
  proof (cases "illegalValue v")
    case True
    then show ?thesis
      using assms by (simp add: setSettingString_def q_setSetting_def)
  next
    case False
    then show ?thesis
      unfolding setSettingString_def
      using assms t q_setSetting_found [of s pre item post k STRING v] by simp
  qed
qed

theorem setSetting_changed_once_witness:
  "m_items stringRegistry =
     [] @ \<lparr>keyType = STRING, key = ''k'', itemValue = QStr ''a'', defaultValue = QStr ''d''\<rparr> # []
   \<and> m_items boolRegistry =
     [] @ \<lparr>keyType = BOOL, key = ''k'', itemValue = QStr ''<TRUE>'',
            defaultValue = QStr ''<FALSE>''\<rparr> # []
   \<and> m_items intRegistry =
     [] @ \<lparr>keyType = INTEGER, key = ''n'', itemValue = QStr ''12'', defaultValue = QStr ''5''\<rparr> # []
   \<and> \<not> illegalKey ''k'' \<and> \<not> illegalKey ''n''
   \<and> setSettingString stringRegistry ''k'' (QStr ''b'') =
       (None, stringRegistry\<lparr>m_items :=
          [\<lparr>keyType = STRING, key = ''k'', itemValue = QStr ''b'', defaultValue = QStr ''d''\<rparr>],
          changed_emitted := changed_emitted stringRegistry + 1\<rparr>)
   \<and> setSettingString stringRegistry ''k'' (QStr ''a'') = (None, stringRegistry)
   \<and> setSettingString stringRegistry ''k'' QNull = (Some IllegalValueException, stringRegistry)
   \<and> setSettingBool boolRegistry ''k'' False =
       (None, boolRegistry\<lparr>m_items :=
          [\<lparr>keyType = BOOL, key = ''k'', itemValue = QStr ''<FALSE>'',
             defaultValue = QStr ''<FALSE>''\<rparr>],
          changed_emitted := changed_emitted boolRegistry + 1\<rparr>)
   \<and> setSettingBool boolRegistry ''k'' True = (None, boolRegistry)
   \<and> setSettingInt intRegistry ''n'' (- 7) =
       (None, intRegistry\<lparr>m_items :=
          [\<lparr>keyType = INTEGER, key = ''n'', itemValue = QStr ''-7'', defaultValue = QStr ''5''\<rparr>],
          changed_emitted := changed_emitted intRegistry + 1\<rparr>)
   \<and> setSettingInt intRegistry ''n'' 12 = (None, intRegistry)"
proof -
  let ?s = "\<lparr>keyType = STRING, key = ''k'', itemValue = QStr ''a'', defaultValue = QStr ''d''\<rparr>"
  let ?b = "\<lparr>keyType = BOOL, key = ''k'', itemValue = QStr ''<TRUE>'',
              defaultValue = QStr ''<FALSE>''\<rparr>"
  let ?n = "\<lparr>keyType = INTEGER, key = ''n'', itemValue = QStr ''12'', defaultValue = QStr ''5''\<rparr>"
  have s1: "m_items stringRegistry = [] @ ?s # []" by code_simp
  have b1: "m_items boolRegistry = [] @ ?b # []" by code_simp
  have n1: "m_items intRegistry = [] @ ?n # []" by code_simp
  have none: "\<forall>x \<in> set []. key x \<noteq> ''k''" "\<forall>x \<in> set []. key x \<noteq> ''n''" by simp_all
  have keys: "key ?s = ''k''" "key ?b = ''k''" "key ?n = ''n''" by simp_all
  have legal: "\<not> illegalKey ''k''" "\<not> illegalKey ''n''"
    by (simp_all add: illegalKey_def UNDEFINED_def)
  have ser: "boolToString False = QStr ''<FALSE>''" "boolToString True = QStr ''<TRUE>''"
    "intToString 12 = QStr ''12''" "intToString (- 7) = QStr ''-7''"
    by code_simp+
  have vals: "\<not> illegalValue (QStr ''b'')" "\<not> illegalValue (QStr ''a'')" "illegalValue QNull"
    by (simp_all add: illegalValue_def UNDEFINED_def)
  note S = setSetting_changed_once [OF s1 none(1) keys(1) legal(1)]
  note B = setSetting_changed_once [OF b1 none(1) keys(2) legal(1)]
  note N = setSetting_changed_once [OF n1 none(2) keys(3) legal(2)]
  have r1: "setSettingString stringRegistry ''k'' (QStr ''b'') =
       (None, stringRegistry\<lparr>m_items :=
          [\<lparr>keyType = STRING, key = ''k'', itemValue = QStr ''b'', defaultValue = QStr ''d''\<rparr>],
          changed_emitted := changed_emitted stringRegistry + 1\<rparr>)"
    using S [of True 0 "QStr ''b''"] vals by (simp add: qne_def)
  have r2: "setSettingString stringRegistry ''k'' (QStr ''a'') = (None, stringRegistry)"
    using S [of True 0 "QStr ''a''"] vals by (simp add: qne_def)
  have r3: "setSettingString stringRegistry ''k'' QNull = (Some IllegalValueException, stringRegistry)"
    using S [of True 0 QNull] vals by simp
  have r4: "setSettingBool boolRegistry ''k'' False =
       (None, boolRegistry\<lparr>m_items :=
          [\<lparr>keyType = BOOL, key = ''k'', itemValue = QStr ''<FALSE>'',
             defaultValue = QStr ''<FALSE>''\<rparr>],
          changed_emitted := changed_emitted boolRegistry + 1\<rparr>)"
    using B [of False 0 QNull] by (simp add: ser qne_def)
  have r5: "setSettingBool boolRegistry ''k'' True = (None, boolRegistry)"
    using B [of True 0 QNull] by (simp add: ser qne_def)
  have r6: "setSettingInt intRegistry ''n'' (- 7) =
       (None, intRegistry\<lparr>m_items :=
          [\<lparr>keyType = INTEGER, key = ''n'', itemValue = QStr ''-7'', defaultValue = QStr ''5''\<rparr>],
          changed_emitted := changed_emitted intRegistry + 1\<rparr>)"
    using N [of True "- 7" QNull] by (simp add: ser qne_def)
  have r7: "setSettingInt intRegistry ''n'' 12 = (None, intRegistry)"
    using N [of True 12 QNull] by (simp add: ser qne_def)
  show ?thesis
    using s1 b1 n1 legal r1 r2 r3 r4 r5 r6 r7 by (intro conjI)
qed

text \<open>
  The claim as it is written fails for \<open>setSettingString\<close> with the sentinel as value:
  it differs from the current value \<open>a\<close>, and the call throws, stores nothing and emits
  nothing.
\<close>

theorem setSetting_changed_once_counterexample:
  "getSettingString stringRegistry ''k'' = Inr (QStr ''a'')
   \<and> qne (QStr ''a'') (QStr UNDEFINED)
   \<and> setSettingString stringRegistry ''k'' (QStr UNDEFINED) =
       (Some IllegalValueException, stringRegistry)"
  by code_simp

subsection \<open>Preview of the defaults\<close>

lemma getLoop_found:
  "\<forall>x \<in> set pre. key x \<noteq> k \<Longrightarrow> key item = k \<Longrightarrow>
   getLoop k t dflt (pre @ item # post) =
     (if keyType item \<noteq> t then Inl WrongTypeException
      else Inr (if dflt then defaultValue item else itemValue item))"
  by (induction pre) auto

lemma q_getSetting_found:
  assumes "m_items s = pre @ item # post" and "\<forall>x \<in> set pre. key x \<noteq> k"
    and "key item = k" and "\<not> illegalKey k" and "keyType item = t"
  shows "q_getSetting s k t = Inr (if m_default s then defaultValue item else itemValue item)"
  using assms by (simp add: q_getSetting_def getLoop_found)

lemma q_addDefaultSetting_m_default:
  "m_default (snd (q_addDefaultSetting s k d t)) = m_default s"
  by (simp add: q_addDefaultSetting_def split: option.splits)

lemma q_setSetting_m_default:
  "m_default (snd (q_setSetting s k v t)) = m_default s"
  by (simp add: q_setSetting_def split: sum.splits prod.splits)

lemma addListLoop_m_default: "m_default (snd (addListLoop s k i vs)) = m_default s"
proof (induction vs arbitrary: s i)
  case Nil
  show ?case by simp
next
  case (Cons v vs)
  have "m_default (snd (addDefaultSettingString s (subkey k i) v)) = m_default s"
    by (simp add: addDefaultSettingString_def q_addDefaultSetting_m_default)
  then show ?case
    using Cons.IH by (auto split: prod.splits option.splits)
qed

lemma setListLoop_m_default: "m_default (snd (setListLoop s k i vs)) = m_default s"
proof (induction vs arbitrary: s i)
  case Nil
  show ?case by simp
next
  case (Cons v vs)
  have "m_default (snd (setSettingString s (subkey k i) v)) = m_default s"
    by (simp add: setSettingString_def q_setSetting_m_default)
  then show ?case
    using Cons.IH by (auto split: prod.splits option.splits)
qed

lemma exec_m_default:
  "x \<noteq> EndRestoreDefault \<Longrightarrow> m_default (fst c) \<Longrightarrow> m_default (fst (exec x c))"
  by (cases c; cases x)
     (simp_all add: addDefaultSettingBool_def addDefaultSettingInt_def
        addDefaultSettingString_def addDefaultSettingStringList_def setSettingBool_def
        setSettingInt_def setSettingString_def setSettingStringList_def
        q_addDefaultSetting_m_default q_setSetting_m_default addListLoop_m_default
        setListLoop_m_default beginRestoreDefault_def readSettings_def)

lemma run_m_default:
  "EndRestoreDefault \<notin> set ops \<Longrightarrow> m_default (fst c) \<Longrightarrow> m_default (fst (run ops c))"
proof (induction ops arbitrary: c)
  case Nil
  then show ?case by simp
next
  case (Cons x xs)
  then have "m_default (fst (exec x c))"
    by (intro exec_m_default) auto
  with Cons show ?case by simp
qed

lemma setLoop_getLoop:
  "setLoop k v t items = Inr (items', e) \<Longrightarrow>
   \<exists>w. getLoop k t False items' = Inr w \<and> chars w = chars v"
  by (induction items arbitrary: items' e)
     (auto simp: qne_def split: if_splits sum.splits)

lemma q_setSetting_q_getSetting:
  assumes "q_setSetting s k v t = (None, s')"
  shows "\<exists>w. q_getSetting (s'\<lparr>m_default := False\<rparr>) k t = Inr w \<and> chars w = chars v"
  using assms setLoop_getLoop [of k v t "m_items s"]
  by (auto simp: q_setSetting_def q_getSetting_def split: if_splits sum.splits)

lemma chars_eq_QStr: "chars w = chars (QStr cs) \<Longrightarrow> cs \<noteq> [] \<Longrightarrow> w = QStr cs"
  by (cases w) auto

lemma number_not_Nil: "number i \<noteq> []"
  using decimal_last by (simp add: number_def)

text \<open>
  C5, as the code has it. Let the registry enter preview-defaults mode and any
  operations but \<open>endRestoreDefault\<close> follow (registrations, sets, loads, saves),
  giving \<open>s'\<close>, and let \<open>item\<close> be the entry that the lookup of \<open>k\<close> finds in \<open>s'\<close>,
  which is the first one registered under \<open>k\<close>. Then the getter of the
  type of \<open>item\<close> returns the default of \<open>item\<close>, whatever was set before or since, and
  \<open>getSettingStringList\<close> returns defaults; entering and leaving the mode leave every
  item as it is; after \<open>endRestoreDefault\<close> the getters return the current value of
  \<open>item\<close>. A value stored by a setter that returned normally is what the getter returns
  after the mode has been entered and left.
\<close>

theorem previewDefaults_reads_defaults:
  assumes "EndRestoreDefault \<notin> set ops"
    and "s' = fst (run ops (beginRestoreDefault s, st))"
    and "m_items s' = pre @ item # post" and "\<forall>x \<in> set pre. key x \<noteq> k"
    and "key item = k" and "\<not> illegalKey k"
  shows "m_items (beginRestoreDefault s) = m_items s
       \<and> m_items (endRestoreDefault s') = m_items s'
       \<and> (keyType item = BOOL \<longrightarrow>
            getSettingBool s' k = Inr (stringToBool (defaultValue item)) \<and>
            getSettingBool (endRestoreDefault s') k = Inr (stringToBool (itemValue item)))
       \<and> (keyType item = INTEGER \<longrightarrow>
            getSettingInt toInt s' k = Inr (toInt (defaultValue item)) \<and>
            getSettingInt toInt (endRestoreDefault s') k = Inr (toInt (itemValue item)))
       \<and> (keyType item = STRING \<longrightarrow>
            getSettingString s' k = Inr (defaultValue item) \<and>
            getSettingString (endRestoreDefault s') k = Inr (itemValue item))
       \<and> getSettingStringList s' kl =
            concat (map (\<lambda>i. map defaultValue (filter (\<lambda>x. key x = subkey kl i) (m_items s')))
                        [0..<length (m_items s')])
       \<and> getSettingStringList (endRestoreDefault s') kl =
            concat (map (\<lambda>i. map itemValue (filter (\<lambda>x. key x = subkey kl i) (m_items s')))
                        [0..<length (m_items s')])
       \<and> (setSettingBool s0 k b = (None, s1) \<longrightarrow>
            getSettingBool (endRestoreDefault (beginRestoreDefault s1)) k = Inr b)
       \<and> (setSettingInt s0 k n = (None, s1) \<longrightarrow>
            getSettingInt toInt (endRestoreDefault (beginRestoreDefault s1)) k =
              Inr (toInt (intToString n)))
       \<and> (setSettingString s0 k v = (None, s1) \<longrightarrow>
            (\<exists>w. getSettingString (endRestoreDefault (beginRestoreDefault s1)) k = Inr w \<and>
                 qeq w v))"
proof -
  have on: "m_default s'"
    using assms(1,2) run_m_default [of ops "(beginRestoreDefault s, st)"]
    by (simp add: beginRestoreDefault_def)
  have off: "\<not> m_default (endRestoreDefault s')"
    and items: "m_items (endRestoreDefault s') = m_items s'"
    by (simp_all add: endRestoreDefault_def)
  have get_on: "q_getSetting s' k (keyType item) = Inr (defaultValue item)"
    using q_getSetting_found [OF assms(3,4,5,6) refl] on by simp
  have get_off: "q_getSetting (endRestoreDefault s') k (keyType item) = Inr (itemValue item)"
    using q_getSetting_found [of "endRestoreDefault s'" pre item post k "keyType item"]
      assms(3,4,5,6) items off by simp
  have bracket: "endRestoreDefault (beginRestoreDefault s1) = s1\<lparr>m_default := False\<rparr>"
    by (simp add: endRestoreDefault_def beginRestoreDefault_def)
  have setBool: "getSettingBool (endRestoreDefault (beginRestoreDefault s1)) k = Inr b"
    if hb: "setSettingBool s0 k b = (None, s1)"
  proof -
    obtain w where w: "q_getSetting (s1\<lparr>m_default := False\<rparr>) k BOOL = Inr w"
      "chars w = chars (boolToString b)"
      using q_setSetting_q_getSetting hb unfolding setSettingBool_def by blast
    then show ?thesis
      by (auto simp: bracket getSettingBool_def stringToBool_def boolToString_def
          VALUE_TRUE_def VALUE_FALSE_def)
  qed
  have setInt: "getSettingInt toInt (endRestoreDefault (beginRestoreDefault s1)) k =
      Inr (toInt (intToString n))"
    if hn: "setSettingInt s0 k n = (None, s1)"
  proof -
    obtain w where w: "q_getSetting (s1\<lparr>m_default := False\<rparr>) k INTEGER = Inr w"
      "chars w = chars (intToString n)"
      using q_setSetting_q_getSetting hn unfolding setSettingInt_def by blast
    then have "w = intToString n"
      using chars_eq_QStr [of w "number (sint n)"] number_not_Nil
      by (simp add: intToString_def)
    with w show ?thesis
      by (simp add: bracket getSettingInt_def)
  qed
  have setString: "\<exists>w. getSettingString (endRestoreDefault (beginRestoreDefault s1)) k = Inr w \<and>
      qeq w v"
    if "setSettingString s0 k v = (None, s1)"
    using q_setSetting_q_getSetting [of s0 k v STRING s1] that
    by (simp add: bracket getSettingString_def setSettingString_def qeq_def)
  have list_on: "getSettingStringList s' kl =
      concat (map (\<lambda>i. map defaultValue (filter (\<lambda>x. key x = subkey kl i) (m_items s')))
                  [0..<length (m_items s')])"
    using on by (simp add: getSettingStringList_def getListLoop_concat)
  have list_off: "getSettingStringList (endRestoreDefault s') kl =
      concat (map (\<lambda>i. map itemValue (filter (\<lambda>x. key x = subkey kl i) (m_items s')))
                  [0..<length (m_items s')])"
    using off items by (simp add: getSettingStringList_def getListLoop_concat)
  have begin_items: "m_items (beginRestoreDefault s) = m_items s"
    by (simp add: beginRestoreDefault_def)
  have bool: "keyType item = BOOL \<longrightarrow>
      getSettingBool s' k = Inr (stringToBool (defaultValue item)) \<and>
      getSettingBool (endRestoreDefault s') k = Inr (stringToBool (itemValue item))"
    using get_on get_off by (auto simp: getSettingBool_def)
  have int: "keyType item = INTEGER \<longrightarrow>
      getSettingInt toInt s' k = Inr (toInt (defaultValue item)) \<and>
      getSettingInt toInt (endRestoreDefault s') k = Inr (toInt (itemValue item))"
    using get_on get_off by (auto simp: getSettingInt_def)
  have str: "keyType item = STRING \<longrightarrow>
      getSettingString s' k = Inr (defaultValue item) \<and>
      getSettingString (endRestoreDefault s') k = Inr (itemValue item)"
    using get_on get_off by (auto simp: getSettingString_def)
  show ?thesis
    using begin_items items bool int str list_on list_off setBool setInt setString
    by blast
qed

theorem previewDefaults_reads_defaults_witness:
  "EndRestoreDefault \<notin> set [SetSettingString ''k'' (QStr ''b'')]
   \<and> m_items (fst (run [SetSettingString ''k'' (QStr ''b'')]
        (beginRestoreDefault stringRegistry, emptyStore))) =
       [] @ \<lparr>keyType = STRING, key = ''k'', itemValue = QStr ''b'', defaultValue = QStr ''d''\<rparr> # []
   \<and> m_items (fst (run [] (beginRestoreDefault boolRegistry, emptyStore))) =
       [] @ \<lparr>keyType = BOOL, key = ''k'', itemValue = QStr ''<TRUE>'',
              defaultValue = QStr ''<FALSE>''\<rparr> # []
   \<and> m_items (fst (run [] (beginRestoreDefault intRegistry, emptyStore))) =
       [] @ \<lparr>keyType = INTEGER, key = ''n'', itemValue = QStr ''12'', defaultValue = QStr ''5''\<rparr> # []
   \<and> \<not> illegalKey ''k'' \<and> \<not> illegalKey ''n''
   \<and> getSettingString (fst (run [SetSettingString ''k'' (QStr ''b'')]
        (beginRestoreDefault stringRegistry, emptyStore))) ''k'' = Inr (QStr ''d'')
   \<and> getSettingString (endRestoreDefault (fst (run [SetSettingString ''k'' (QStr ''b'')]
        (beginRestoreDefault stringRegistry, emptyStore)))) ''k'' = Inr (QStr ''b'')
   \<and> getSettingBool (fst (run [] (beginRestoreDefault boolRegistry, emptyStore))) ''k'' = Inr False
   \<and> getSettingBool (endRestoreDefault (fst (run [] (beginRestoreDefault boolRegistry, emptyStore))))
        ''k'' = Inr True
   \<and> getSettingInt (\<lambda>q. of_nat (digitsValue (chars q) 0))
        (fst (run [] (beginRestoreDefault intRegistry, emptyStore))) ''n'' = Inr 5
   \<and> getSettingInt (\<lambda>q. of_nat (digitsValue (chars q) 0))
        (endRestoreDefault (fst (run [] (beginRestoreDefault intRegistry, emptyStore)))) ''n'' = Inr 12
   \<and> setSettingBool boolRegistry0 ''k'' True = (None, boolRegistry)
   \<and> getSettingBool (endRestoreDefault (beginRestoreDefault boolRegistry)) ''k'' = Inr True"
proof -
  let ?s = "\<lparr>keyType = STRING, key = ''k'', itemValue = QStr ''b'', defaultValue = QStr ''d''\<rparr>"
  let ?b = "\<lparr>keyType = BOOL, key = ''k'', itemValue = QStr ''<TRUE>'',
              defaultValue = QStr ''<FALSE>''\<rparr>"
  let ?n = "\<lparr>keyType = INTEGER, key = ''n'', itemValue = QStr ''12'', defaultValue = QStr ''5''\<rparr>"
  let ?ops = "[SetSettingString ''k'' (QStr ''b'')]"
  let ?toInt = "\<lambda>q. of_nat (digitsValue (chars q) 0) :: 32 word"
  have e1: "EndRestoreDefault \<notin> set ?ops" and e0: "EndRestoreDefault \<notin> set []" by simp_all
  have s3: "m_items (fst (run ?ops (beginRestoreDefault stringRegistry, emptyStore))) = [] @ ?s # []"
    by code_simp
  have b3: "m_items (fst (run [] (beginRestoreDefault boolRegistry, emptyStore))) = [] @ ?b # []"
    by code_simp
  have n3: "m_items (fst (run [] (beginRestoreDefault intRegistry, emptyStore))) = [] @ ?n # []"
    by code_simp
  have none: "\<forall>x \<in> set []. key x \<noteq> ''k''" "\<forall>x \<in> set []. key x \<noteq> ''n''" by simp_all
  have keys: "key ?s = ''k''" "key ?b = ''k''" "key ?n = ''n''" by simp_all
  have legal: "\<not> illegalKey ''k''" "\<not> illegalKey ''n''"
    by (simp_all add: illegalKey_def UNDEFINED_def)
  have set: "setSettingBool boolRegistry0 ''k'' True = (None, boolRegistry)" by code_simp
  have dec: "?toInt (QStr ''5'') = 5" "?toInt (QStr ''12'') = 12"
    "stringToBool (QStr ''<TRUE>'')" "\<not> stringToBool (QStr ''<FALSE>'')"
    by (simp_all add: stringToBool_def VALUE_TRUE_def)
  note S = previewDefaults_reads_defaults [OF e1 refl s3 none(1) keys(1) legal(1)]
  note B = previewDefaults_reads_defaults [OF e0 refl b3 none(1) keys(2) legal(1),
      of ?toInt "''p''" boolRegistry0 True boolRegistry]
  note N = previewDefaults_reads_defaults [OF e0 refl n3 none(2) keys(3) legal(2), of ?toInt]
  have r1: "getSettingString (fst (run ?ops (beginRestoreDefault stringRegistry, emptyStore))) ''k'' =
      Inr (QStr ''d'')"
    and r2: "getSettingString (endRestoreDefault (fst (run ?ops
      (beginRestoreDefault stringRegistry, emptyStore)))) ''k'' = Inr (QStr ''b'')"
    using S by simp_all
  have r3: "getSettingBool (fst (run [] (beginRestoreDefault boolRegistry, emptyStore))) ''k'' =
      Inr False"
    and r4: "getSettingBool (endRestoreDefault (fst (run []
      (beginRestoreDefault boolRegistry, emptyStore)))) ''k'' = Inr True"
    using B dec(3,4) by simp_all
  have r5: "getSettingInt ?toInt (fst (run [] (beginRestoreDefault intRegistry, emptyStore))) ''n'' =
      Inr 5"
    and r6: "getSettingInt ?toInt (endRestoreDefault (fst (run []
      (beginRestoreDefault intRegistry, emptyStore)))) ''n'' = Inr 12"
    using N dec(1,2) by simp_all
  have r7: "getSettingBool (endRestoreDefault (beginRestoreDefault boolRegistry)) ''k'' = Inr True"
    using B set by blast
  show ?thesis
    using e1 s3 b3 n3 legal r1 r2 r3 r4 r5 r6 set r7 by (intro conjI)
qed

text \<open>
  The claim as it is written fails for a key registered under two types: \<open>x\<close> is
  registered as a Boolean setting with the default \<open>True\<close>, after an integer setting
  of the same key, and \<open>getSettingBool\<close> throws in preview-defaults mode and after it.
\<close>

theorem previewDefaults_reads_defaults_counterexample:
  "m_items twoTypesPreview =
     [\<lparr>keyType = INTEGER, key = ''x'', itemValue = QNull, defaultValue = QStr ''1''\<rparr>,
      \<lparr>keyType = BOOL, key = ''x'', itemValue = QNull, defaultValue = QStr ''<TRUE>''\<rparr>]
   \<and> m_default twoTypesPreview
   \<and> getSettingBool twoTypesPreview ''x'' = Inl WrongTypeException
   \<and> getSettingBool (endRestoreDefault twoTypesPreview) ''x'' = Inl WrongTypeException"
  by code_simp

subsection \<open>Registering a key again\<close>






subsection \<open>Saving\<close>

lemma writeLoop_append: "writeLoop (xs @ ys) st = writeLoop ys (writeLoop xs st)"
  by (induction xs arbitrary: st) auto

lemma writeLoop_stored_other:
  "name \<notin> uniqueRegisterKey ` set items \<Longrightarrow> stored (writeLoop items st) name = stored st name"
  by (induction items arbitrary: st) (auto simp: setValue_def)

text \<open>
  Saving, entry by entry. Let \<open>e\<close> be an entry of the registry and \<open>pre\<close> the
  entries before it. In its turn \<open>writeSettings\<close> calls \<open>setValue\<close> once, with the
  namespaced key and the current value of \<open>e\<close>, if the current value differs from the
  default or the store, as the entries before have left it, contains that key, and
  does not call it otherwise. Where the namespaced keys of the entries are pairwise
  distinct, the store contains the key in the turn of \<open>e\<close> exactly if it did before
  the save, and after the save it holds the current value of \<open>e\<close> under the key in
  the first case and nothing in the second.
\<close>

lemma writeSettings_writes_iff:
  assumes "m_items s = pre @ e # post"
  shows "setValue_calls (writeLoop (pre @ [e]) st) =
           setValue_calls (writeLoop pre st) @
             (if qne (itemValue e) (defaultValue e) \<or>
                 contains (writeLoop pre st) (uniqueRegisterKey e)
              then [(uniqueRegisterKey e, itemValue e)] else [])
       \<and> writeSettings s st = writeLoop post (writeLoop (pre @ [e]) st)
       \<and> (distinct (map uniqueRegisterKey (m_items s)) \<longrightarrow>
            contains (writeLoop pre st) (uniqueRegisterKey e) = contains st (uniqueRegisterKey e) \<and>
            stored (writeSettings s st) (uniqueRegisterKey e) =
              (if qne (itemValue e) (defaultValue e) \<or> contains st (uniqueRegisterKey e)
               then Some (itemValue e) else None))"
proof -
  have turn: "setValue_calls (writeLoop (pre @ [e]) st) =
           setValue_calls (writeLoop pre st) @
             (if qne (itemValue e) (defaultValue e) \<or>
                 contains (writeLoop pre st) (uniqueRegisterKey e)
              then [(uniqueRegisterKey e, itemValue e)] else [])"
    by (simp add: writeLoop_append setValue_def)
  have whole: "writeSettings s st = writeLoop post (writeLoop (pre @ [e]) st)"
    using assms by (simp add: writeSettings_def writeLoop_append)
  have separate: "contains (writeLoop pre st) (uniqueRegisterKey e) = contains st (uniqueRegisterKey e) \<and>
            stored (writeSettings s st) (uniqueRegisterKey e) =
              (if qne (itemValue e) (defaultValue e) \<or> contains st (uniqueRegisterKey e)
               then Some (itemValue e) else None)"
    if d: "distinct (map uniqueRegisterKey (m_items s))"
  proof -
    have npre: "uniqueRegisterKey e \<notin> uniqueRegisterKey ` set pre"
      and npost: "uniqueRegisterKey e \<notin> uniqueRegisterKey ` set post"
      using d assms by auto
    have before: "stored (writeLoop pre st) (uniqueRegisterKey e) = stored st (uniqueRegisterKey e)"
      using npre by (rule writeLoop_stored_other)
    have after: "stored (writeSettings s st) (uniqueRegisterKey e) =
        stored (writeLoop (pre @ [e]) st) (uniqueRegisterKey e)"
      unfolding whole using npost by (rule writeLoop_stored_other)
    show ?thesis
      using before unfolding after
      by (auto simp: writeLoop_append contains_def setValue_def)
  qed
  show ?thesis
    using turn whole separate by blast
qed

lemma writeSettings_writes_iff_example:
  "m_items saveRegistry =
     [\<lparr>keyType = STRING, key = ''k'', itemValue = QStr ''a'', defaultValue = QStr ''d''\<rparr>] @
     \<lparr>keyType = BOOL, key = ''flag'', itemValue = QStr ''<FALSE>'',
        defaultValue = QStr ''<FALSE>''\<rparr> # []
   \<and> distinct (map uniqueRegisterKey (m_items saveRegistry))
   \<and> setValue_calls (writeSettings saveRegistry emptyStore) = [(''k'', QStr ''a'')]
   \<and> stored (writeSettings saveRegistry emptyStore) ''k'' = Some (QStr ''a'')
   \<and> stored (writeSettings saveRegistry emptyStore) ''flag_bool'' = None"
proof -
  let ?k = "\<lparr>keyType = STRING, key = ''k'', itemValue = QStr ''a'', defaultValue = QStr ''d''\<rparr>"
  let ?flag = "\<lparr>keyType = BOOL, key = ''flag'', itemValue = QStr ''<FALSE>'',
        defaultValue = QStr ''<FALSE>''\<rparr>"
  have h1: "m_items saveRegistry = [?k] @ ?flag # []" by code_simp
  have h2: "m_items saveRegistry = [] @ ?k # [?flag]" by code_simp
  have d: "distinct (map uniqueRegisterKey (m_items saveRegistry))" by code_simp
  have names: "uniqueRegisterKey ?k = ''k''" "uniqueRegisterKey ?flag = ''flag_bool''"
    by (simp_all add: uniqueRegisterKey_def)
  have conds: "qne (itemValue ?k) (defaultValue ?k)" "\<not> qne (itemValue ?flag) (defaultValue ?flag)"
    "\<not> contains emptyStore ''flag_bool''"
    by (simp_all add: qne_def contains_def emptyStore_def)
  have turn: "setValue_calls (writeLoop [?k] emptyStore) = [(''k'', QStr ''a'')]"
    by code_simp
  have turn': "\<not> contains (writeLoop [?k] emptyStore) ''flag_bool''"
    by code_simp
  have whole: "writeSettings saveRegistry emptyStore = writeLoop ([?k] @ [?flag]) emptyStore"
    using writeSettings_writes_iff [OF h1, of emptyStore] by simp
  have calls: "setValue_calls (writeLoop ([?k] @ [?flag]) emptyStore) = [(''k'', QStr ''a'')]"
    using writeSettings_writes_iff [OF h1, of emptyStore]
    by (simp del: writeLoop.simps add: qne_def turn turn' names(2))
  have flag: "stored (writeSettings saveRegistry emptyStore) ''flag_bool'' = None"
    using writeSettings_writes_iff [OF h1, of emptyStore, THEN conjunct2, THEN conjunct2,
        rule_format, OF d, THEN conjunct2]
    by (simp add: qne_def conds(3) names(2))
  have k: "stored (writeSettings saveRegistry emptyStore) ''k'' = Some (QStr ''a'')"
    using writeSettings_writes_iff [OF h2, of emptyStore, THEN conjunct2, THEN conjunct2,
        rule_format, OF d, THEN conjunct2]
    by (simp add: qne_def names(1))
  show ?thesis
    using h1 d whole calls flag k by simp
qed

text \<open>
  C7 at a failing input. The Boolean setting \<open>a\<close> and the string setting \<open>a_bool\<close>
  have the same name in the store. The string setting is at its default \<open>s\<close> and the
  store is empty before the save, and yet \<open>writeSettings\<close> writes it: the Boolean
  setting, saved just before, has put a value under \<open>a_bool\<close>, so that the store
  contains the name when the string setting is reached.
\<close>

theorem writeSettings_collision:
  "m_items collidingRegistry2 =
     [\<lparr>keyType = BOOL, key = ''a'', itemValue = QStr ''<TRUE>'', defaultValue = QStr ''<FALSE>''\<rparr>,
      \<lparr>keyType = STRING, key = ''a_bool'', itemValue = QStr ''s'', defaultValue = QStr ''s''\<rparr>]
   \<and> \<not> qne (QStr ''s'') (QStr ''s'')
   \<and> \<not> contains emptyStore ''a_bool''
   \<and> uniqueRegisterKey
        \<lparr>keyType = STRING, key = ''a_bool'', itemValue = QStr ''s'', defaultValue = QStr ''s''\<rparr> =
       ''a_bool''
   \<and> setValue_calls (writeSettings collidingRegistry2 emptyStore) =
       [(''a_bool'', QStr ''<TRUE>''), (''a_bool'', QStr ''s'')]"
  by code_simp

subsection \<open>Saving and loading again\<close>

lemma writeLoop_stored_distinct:
  assumes "distinct (map uniqueRegisterKey items)" and "item \<in> set items"
  shows "stored (writeLoop items st) (uniqueRegisterKey item) =
     (if qne (itemValue item) (defaultValue item) \<or> contains st (uniqueRegisterKey item)
      then Some (itemValue item) else None)"
proof -
  obtain pre post where split: "items = pre @ item # post"
    using assms(2) by (auto simp: in_set_conv_decomp)
  have npre: "uniqueRegisterKey item \<notin> uniqueRegisterKey ` set pre"
    and npost: "uniqueRegisterKey item \<notin> uniqueRegisterKey ` set post"
    using assms(1) split by auto
  have "stored (writeLoop items st) (uniqueRegisterKey item) =
        stored (writeLoop [item] (writeLoop pre st)) (uniqueRegisterKey item)"
    using writeLoop_stored_other [OF npost] by (simp add: split writeLoop_append)
  then show ?thesis
    using writeLoop_stored_other [OF npre, of st]
    by (auto simp: contains_def setValue_def)
qed

lemma uniqueRegisterKey_itemValue [simp]:
  "uniqueRegisterKey (item\<lparr>itemValue := v\<rparr>) = uniqueRegisterKey item"
  by (simp add: uniqueRegisterKey_def split: KeyType.splits)

lemma save_load_distinct:
  assumes "distinct (map uniqueRegisterKey (m_items s))"
    and "\<forall>item \<in> set (m_items s). chars (itemValue item) \<noteq> UNDEFINED"
    and "item \<in> set (m_items s)"
  shows "qeq (itemValue (readItem (writeSettings s st) (item\<lparr>itemValue := QNull\<rparr>)))
             (itemValue item)"
  using assms writeLoop_stored_distinct [OF assms(1,3), of st]
  by (auto simp: readItem_def settingsValue_def writeSettings_def qeq_def qne_def Let_def)

text \<open>
  C8 at a failing input. \<open>uniqueRegisterKey\<close> gives the string setting \<open>a_bool\<close> and
  the Boolean setting \<open>a\<close> the same name in the store. The registry holds \<open>s\<close> for the
  first and \<open>True\<close> for the second; saving writes \<open><TRUE>\<close> under \<open>a_bool\<close>, and a new
  registry with the same two settings loads \<open><TRUE>\<close> as the value of the string
  setting, where the original has \<open>s\<close>. (Where the names are pairwise distinct, saving
  and loading gives every value back: \<open>save_load_distinct\<close>.)
\<close>

theorem save_load_collision:
  "uniqueRegisterKey \<lparr>keyType = STRING, key = ''a_bool'', itemValue = QNull, defaultValue = QStr ''s''\<rparr> =
   uniqueRegisterKey \<lparr>keyType = BOOL, key = ''a'', itemValue = QNull, defaultValue = QStr ''<FALSE>''\<rparr>
   \<and> getSettingString collidingRegistry ''a_bool'' = Inr (QStr ''s'')
   \<and> getSettingBool collidingRegistry ''a'' = Inr True
   \<and> setValue_calls (writeSettings collidingRegistry emptyStore) = [(''a_bool'', QStr ''<TRUE>'')]
   \<and> getSettingString reloadedRegistry ''a_bool'' = Inr (QStr ''<TRUE>'')
   \<and> getSettingBool reloadedRegistry ''a'' = Inr True"
  by code_simp

subsection \<open>Illegal keys\<close>

lemma subkey_legal: "\<not> illegalKey (subkey k i)"
proof -
  have "last (subkey k i) = digit (i mod 10)" and "subkey k i \<noteq> []"
    using decimal_last [of i] by (simp_all add: subkey_def)
  moreover have "last UNDEFINED = CHR ''>''"
    by (simp add: UNDEFINED_def)
  ultimately show ?thesis
    using digit_not_gt [of "i mod 10"] by (auto simp: illegalKey_def)
qed

lemma setLoop_no_IllegalKey: "setLoop k v t items \<noteq> Inl IllegalKeyException"
  by (induction items) (auto split: sum.splits)

lemma setListLoop_no_IllegalKey:
  "fst (setListLoop s k i vs) \<noteq> Some IllegalKeyException"
proof (induction vs arbitrary: s i)
  case Nil
  show ?case by simp
next
  case (Cons v vs)
  have "fst (setSettingString s (subkey k i) v) \<noteq> Some IllegalKeyException"
    using subkey_legal [of k i] setLoop_no_IllegalKey [of "subkey k i" v STRING "m_items s"]
    by (auto simp: setSettingString_def q_setSetting_def split: sum.splits)
  then show ?case
    using Cons.IH by (auto split: prod.splits option.splits)
qed

text \<open>
  C9, as the code has it. Called with the empty key or with the sentinel as key, each
  of \<open>getSettingBool\<close>, \<open>getSettingInt\<close>, \<open>getSettingString\<close>, \<open>setSettingBool\<close>,
  \<open>setSettingInt\<close> and \<open>setSettingString\<close> throws \<open>IllegalKeyException\<close>, whatever
  the registry holds and whatever the value is, and the setters leave the registry as
  it is. \<open>setSettingStringList\<close> never throws \<open>IllegalKeyException\<close>, whatever its
  key: the sub-keys it addresses end in a digit. (\<open>getSettingStringList\<close> throws
  nothing at all.)
\<close>

theorem illegal_key_rejected:
  assumes "k = [] \<or> k = UNDEFINED"
  shows "getSettingBool s k = Inl IllegalKeyException
       \<and> getSettingInt toInt s k = Inl IllegalKeyException
       \<and> getSettingString s k = Inl IllegalKeyException
       \<and> setSettingBool s k b = (Some IllegalKeyException, s)
       \<and> setSettingInt s k n = (Some IllegalKeyException, s)
       \<and> setSettingString s k v = (Some IllegalKeyException, s)
       \<and> fst (setSettingStringList s k' vs) \<noteq> Some IllegalKeyException"
  using assms setListLoop_no_IllegalKey [of s k' 0 vs]
  by (simp add: getSettingBool_def getSettingInt_def getSettingString_def q_getSetting_def
      setSettingBool_def setSettingInt_def setSettingString_def q_setSetting_def
      setSettingStringList_def illegalKey_def)

theorem illegal_key_rejected_witness:
  "('''' = [] \<or> '''' = UNDEFINED)
   \<and> getSettingBool boolRegistry '''' = Inl IllegalKeyException
   \<and> setSettingString stringRegistry '''' (QStr ''v'') = (Some IllegalKeyException, stringRegistry)"
proof -
  have h: "'''' = [] \<or> '''' = UNDEFINED" by simp
  show ?thesis
    using illegal_key_rejected [OF h, of boolRegistry]
      illegal_key_rejected [OF h, of stringRegistry]
    by simp
qed

text \<open>
  The claim as it is written fails for the list operations: with the empty key they
  address the sub-keys \<open>0\<close>, \<open>1\<close>, ... and neither throws; the setter changes the
  registry.
\<close>

theorem illegal_key_rejected_counterexample:
  "getSettingStringList zeroRegistry '''' = [QStr ''z'']
   \<and> fst (setSettingStringList zeroRegistry '''' [QStr ''w'']) = None
   \<and> getSettingString (snd (setSettingStringList zeroRegistry '''' [QStr ''w''])) ''0'' =
       Inr (QStr ''w'')
   \<and> getSettingString zeroRegistry ''0'' = Inr (QStr ''z'')"
  by code_simp

subsection \<open>Setting a string list that meets an unregistered sub-key\<close>
















end
